theory Spec2Isabelle
  imports Complex_Main
begin

section \<open>Strings\<close>

text \<open>
  A Go string is modelled as the list of its Unicode code points (runes); this is what
  the regular expressions of \<^verbatim>\<open>storage.go\<close> and \<^verbatim>\<open>strings.TrimSpace\<close> work on.
  \<open>str\<close> turns an ASCII literal into such a list.
\<close>

type_synonym rune = nat
type_synonym gostring = "rune list"

definition str :: "string \<Rightarrow> gostring" where
  "str s = map of_char s"

section \<open>Time\<close>

text \<open>
  A \<^verbatim>\<open>time.Time\<close> is an instant together with a \<^verbatim>\<open>Location\<close>. The model keeps the
  instant, written with its civil fields in UTC: year, month, day of month and the
  nanoseconds elapsed since midnight. \<open>instant\<close> is the number of nanoseconds since the
  zero time (January 1, year 1, 00:00:00 UTC), which is all that \<^verbatim>\<open>Before\<close>,
  \<^verbatim>\<open>After\<close> and \<^verbatim>\<open>IsZero\<close> look at, and all that a \<^verbatim>\<open>TIMESTAMPTZ\<close> column
  keeps. The \<^verbatim>\<open>Location\<close> matters to \<^verbatim>\<open>AddDate\<close> alone, which steps the wall clock
  of the \<^verbatim>\<open>Location\<close>: the generator below takes \<^verbatim>\<open>AddDate\<close> as a parameter, so
  that what is proved of it holds in every \<^verbatim>\<open>Location\<close>.
\<close>

datatype Month = January | February | March | April | May | June
  | July | August | September | October | November | December

record Time =
  Year :: int
  Mon :: Month
  Day :: nat
  Nanos :: nat

definition isLeap :: "int \<Rightarrow> bool" where
  "isLeap y = (y mod 4 = 0 \<and> (y mod 100 \<noteq> 0 \<or> y mod 400 = 0))"

fun daysIn :: "int \<Rightarrow> Month \<Rightarrow> nat" where
  "daysIn y January = 31"
| "daysIn y February = (if isLeap y then 29 else 28)"
| "daysIn y March = 31"
| "daysIn y April = 30"
| "daysIn y May = 31"
| "daysIn y June = 30"
| "daysIn y July = 31"
| "daysIn y August = 31"
| "daysIn y September = 30"
| "daysIn y October = 31"
| "daysIn y November = 30"
| "daysIn y December = 31"

text \<open>The month after a month, with the year it falls in.\<close>

fun nextMonth :: "int \<Rightarrow> Month \<Rightarrow> int \<times> Month" where
  "nextMonth y January = (y, February)"
| "nextMonth y February = (y, March)"
| "nextMonth y March = (y, April)"
| "nextMonth y April = (y, May)"
| "nextMonth y May = (y, June)"
| "nextMonth y June = (y, July)"
| "nextMonth y July = (y, August)"
| "nextMonth y August = (y, September)"
| "nextMonth y September = (y, October)"
| "nextMonth y October = (y, November)"
| "nextMonth y November = (y, December)"
| "nextMonth y December = (y + 1, January)"

text \<open>Days of the year before the first of a month, in a year that is not a leap year.\<close>

fun daysBefore :: "Month \<Rightarrow> int" where
  "daysBefore January = 0"
| "daysBefore February = 31"
| "daysBefore March = 59"
| "daysBefore April = 90"
| "daysBefore May = 120"
| "daysBefore June = 151"
| "daysBefore July = 181"
| "daysBefore August = 212"
| "daysBefore September = 243"
| "daysBefore October = 273"
| "daysBefore November = 304"
| "daysBefore December = 334"

definition afterFebruary :: "Month \<Rightarrow> bool" where
  "afterFebruary m = (m \<noteq> January \<and> m \<noteq> February)"

definition daysSinceEpoch :: "int \<Rightarrow> int" where
  "daysSinceEpoch y = 365 * (y - 1) + (y - 1) div 4 - (y - 1) div 100 + (y - 1) div 400"

text \<open>
  The day number of a date, as \<^verbatim>\<open>time.Date\<close> computes it: the day of the month is
  added as it is, so a day beyond the end of the month runs into the next month.
\<close>

definition dayNumber :: "int \<Rightarrow> Month \<Rightarrow> nat \<Rightarrow> int" where
  "dayNumber y m d =
     daysSinceEpoch y + daysBefore m + (if isLeap y \<and> afterFebruary m then 1 else 0)
       + int d - 1"

definition nanosPerDay :: int where
  "nanosPerDay = 86400000000000"

definition instant :: "Time \<Rightarrow> int" where
  "instant t = dayNumber (Year t) (Mon t) (Day t) * nanosPerDay + int (Nanos t)"

definition Before :: "Time \<Rightarrow> Time \<Rightarrow> bool" where
  "Before t u = (instant t < instant u)"

definition After :: "Time \<Rightarrow> Time \<Rightarrow> bool" where
  "After t u = (instant t > instant u)"

definition IsZero :: "Time \<Rightarrow> bool" where
  "IsZero t = (instant t = 0)"

text \<open>
  \<^verbatim>\<open>time.Date\<close> normalises a day of the month that is too large by carrying into the
  following months: October 31 plus one month is November 31, that is December 1.
\<close>

function normDay :: "int \<Rightarrow> Month \<Rightarrow> nat \<Rightarrow> int \<times> Month \<times> nat" where
  "normDay y m d =
     (if daysIn y m < d
      then (case nextMonth y m of (y', m') \<Rightarrow> normDay y' m' (d - daysIn y m))
      else (y, m, d))"
  by pat_completeness auto
termination
proof (relation "measure (\<lambda>(y, m, d). d)")
  show "wf (measure (\<lambda>(y, m, d). d))" by simp
next
  fix y :: int and m :: Month and d :: nat and x :: "int \<times> Month" and y' :: int and m' :: Month
  assume "daysIn y m < d"
  moreover have "0 < daysIn y m" by (cases m) simp_all
  ultimately show "((y', m', d - daysIn y m), (y, m, d)) \<in> measure (\<lambda>(y, m, d). d)"
    by simp
qed

declare normDay.simps [simp del]

text \<open>
  \<^verbatim>\<open>t.AddDate(years, months, days)\<close> for a \<open>t\<close> whose \<^verbatim>\<open>Location\<close> is UTC, with
  arguments that are not negative (the generator passes no others): the year and the
  month are moved, the days are added to the day of the month, and the date is
  normalised. The time of day is kept. This is the instance of \<^verbatim>\<open>AddDate\<close> the
  definitions are run on; no theorem about the generator depends on it.
\<close>

definition setDate :: "Time \<Rightarrow> int \<times> Month \<times> nat \<Rightarrow> Time" where
  "setDate t ymd = (case ymd of (y, m, d) \<Rightarrow> t\<lparr>Year := y, Mon := m, Day := d\<rparr>)"

primrec monthsLater :: "nat \<Rightarrow> int \<Rightarrow> Month \<Rightarrow> int \<times> Month" where
  "monthsLater 0 y m = (y, m)"
| "monthsLater (Suc k) y m = (case nextMonth y m of (y', m') \<Rightarrow> monthsLater k y' m')"

definition utcAddDate :: "Time \<Rightarrow> int \<Rightarrow> int \<Rightarrow> int \<Rightarrow> Time" where
  "utcAddDate t years months days =
     (case monthsLater (nat months) (Year t + years) (Mon t) of
        (y', m') \<Rightarrow> setDate t (normDay y' m' (Day t + nat days)))"

text \<open>
  \<^verbatim>\<open>t.AddDate(years, months, days)\<close> for a \<open>t\<close> whose \<^verbatim>\<open>Location\<close> has a fixed
  offset, in seconds east of UTC: the wall clock of the \<^verbatim>\<open>Location\<close> is the UTC clock
  moved by the offset, the date is stepped on the wall clock, and the result is moved
  back. \<open>shiftClock\<close> moves a clock by less than a day.
\<close>

fun prevMonth :: "int \<Rightarrow> Month \<Rightarrow> int \<times> Month" where
  "prevMonth y January = (y - 1, December)"
| "prevMonth y February = (y, January)"
| "prevMonth y March = (y, February)"
| "prevMonth y April = (y, March)"
| "prevMonth y May = (y, April)"
| "prevMonth y June = (y, May)"
| "prevMonth y July = (y, June)"
| "prevMonth y August = (y, July)"
| "prevMonth y September = (y, August)"
| "prevMonth y October = (y, September)"
| "prevMonth y November = (y, October)"
| "prevMonth y December = (y, November)"

definition previousDay :: "Time \<Rightarrow> Time" where
  "previousDay t =
     (if 1 < Day t then t\<lparr>Day := Day t - 1\<rparr>
      else (case prevMonth (Year t) (Mon t) of
              (y', m') \<Rightarrow> t\<lparr>Year := y', Mon := m', Day := daysIn y' m'\<rparr>))"

definition nextDay :: "Time \<Rightarrow> Time" where
  "nextDay t = setDate t (normDay (Year t) (Mon t) (Day t + 1))"

definition shiftClock :: "int \<Rightarrow> Time \<Rightarrow> Time" where
  "shiftClock delta t =
     (let total = int (Nanos t) + delta in
      if total < 0 then (previousDay t)\<lparr>Nanos := nat (total + nanosPerDay)\<rparr>
      else if nanosPerDay \<le> total then (nextDay t)\<lparr>Nanos := nat (total - nanosPerDay)\<rparr>
      else t\<lparr>Nanos := nat total\<rparr>)"

definition zoneAddDate :: "int \<Rightarrow> Time \<Rightarrow> int \<Rightarrow> int \<Rightarrow> int \<Rightarrow> Time" where
  "zoneAddDate offset t years months days =
     shiftClock (- (offset * 1000000000))
       (utcAddDate (shiftClock (offset * 1000000000) t) years months days)"

subsection \<open>In UTC every step moves a time forward\<close>

lemma div_pred:
  fixes y k :: int
  assumes k: "0 < k"
  shows "(y - 1) div k = y div k - (if y mod k = 0 then 1 else 0)"
proof -
  define q where "q = y div k"
  define r where "r = y mod k"
  have y: "y = k * q + r" by (simp add: q_def r_def)
  have r: "0 \<le> r" "r < k" using k by (simp_all add: r_def)
  have "(y - 1) div k = q - (if r = 0 then 1 else 0)"
  proof (rule int_div_pos_eq [where r = "if r = 0 then k - 1 else r - 1"])
    show "y - 1 = k * (q - (if r = 0 then 1 else 0)) + (if r = 0 then k - 1 else r - 1)"
      unfolding y by (simp add: algebra_simps)
    show "0 \<le> (if r = 0 then k - 1 else r - 1)" using r k by simp
    show "(if r = 0 then k - 1 else r - 1) < k" using r k by simp
  qed
  then show ?thesis by (simp add: q_def r_def)
qed

lemma mod_100_4: "(y::int) mod 100 = 0 \<Longrightarrow> y mod 4 = 0"
  using mod_mod_cancel [of 4 100 y] by simp

lemma mod_400_100: "(y::int) mod 400 = 0 \<Longrightarrow> y mod 100 = 0"
  using mod_mod_cancel [of 100 400 y] by simp

lemma count_prop:
  "(P400 \<Longrightarrow> P100) \<Longrightarrow> (P100 \<Longrightarrow> P4) \<Longrightarrow>
   (if P4 then 1 else 0) - (if P100 then 1 else 0) + (if P400 then 1 else 0)
     = (if P4 \<and> (\<not> P100 \<or> P400) then 1 else (0::int))"
  by auto

lemma leap_count:
  "(if (y::int) mod 4 = 0 then 1 else 0) - (if y mod 100 = 0 then 1 else 0)
     + (if y mod 400 = 0 then 1 else 0) = (if isLeap y then 1 else (0::int))"
  unfolding isLeap_def
  by (rule count_prop) (rule mod_400_100, assumption, rule mod_100_4, assumption)

lemma sum_shift:
  "d1 = a - c4 \<Longrightarrow> d2 = b - c100 \<Longrightarrow> d3 = c - c400 \<Longrightarrow>
   365 * y + a - b + c = 365 * (y - 1) + d1 - d2 + d3 + 365 + (c4 - c100 + c400)"
  for y :: int
  by simp

lemma daysSinceEpoch_next:
  "daysSinceEpoch (y + 1) = daysSinceEpoch y + 365 + (if isLeap y then 1 else 0)"
proof -
  have "daysSinceEpoch (y + 1) = 365 * y + y div 4 - y div 100 + y div 400"
    by (simp add: daysSinceEpoch_def)
  also have "\<dots> = 365 * (y - 1) + (y - 1) div 4 - (y - 1) div 100 + (y - 1) div 400 + 365
     + ((if (y::int) mod 4 = 0 then 1 else 0) - (if y mod 100 = 0 then 1 else 0)
     + (if y mod 400 = 0 then 1 else 0))"
    by (rule sum_shift) (rule div_pred, simp)+
  finally show ?thesis unfolding leap_count daysSinceEpoch_def .
qed

lemma dayNumber_nextMonth:
  "nextMonth y m = (y', m') \<Longrightarrow> dayNumber y' m' d = dayNumber y m d + int (daysIn y m)"
  by (cases m) (auto simp: dayNumber_def afterFebruary_def daysSinceEpoch_next)

lemma dayNumber_normDay:
  "normDay y m d = (y', m', d') \<Longrightarrow> dayNumber y' m' d' = dayNumber y m d"
proof (induction y m d rule: normDay.induct)
  case (1 y m d)
  show ?case
  proof (cases "daysIn y m < d")
    case True
    obtain y1 m1 where nm: "nextMonth y m = (y1, m1)" by (cases "nextMonth y m")
    from True nm "1.prems" have "normDay y1 m1 (d - daysIn y m) = (y', m', d')"
      by (subst (asm) normDay.simps) simp
    with "1.IH" [OF True nm [symmetric]]
    have "dayNumber y' m' d' = dayNumber y1 m1 (d - daysIn y m)"
      by simp
    also have "\<dots> = dayNumber y m (d - daysIn y m) + int (daysIn y m)"
      using nm by (rule dayNumber_nextMonth)
    also have "\<dots> = dayNumber y m d"
      using True by (simp add: dayNumber_def)
    finally show ?thesis .
  next
    case False
    with "1.prems" show ?thesis by (subst (asm) normDay.simps) simp
  qed
qed

lemma instant_setDate:
  "instant (setDate t (normDay y m d)) = dayNumber y m d * nanosPerDay + int (Nanos t)"
proof -
  obtain y' m' d' where n: "normDay y m d = (y', m', d')" by (cases "normDay y m d")
  from dayNumber_normDay [OF n] show ?thesis
    by (simp add: n setDate_def instant_def)
qed

lemma instant_utcAddDate_days:
  "instant (utcAddDate t 0 0 (int n)) = instant t + int n * nanosPerDay"
  unfolding utcAddDate_def by (simp add: instant_setDate)
    (simp add: instant_def dayNumber_def algebra_simps)

lemma instant_utcAddDate_month:
  "instant (utcAddDate t 0 1 0) = instant t + int (daysIn (Year t) (Mon t)) * nanosPerDay"
proof -
  obtain y1 m1 where nm: "nextMonth (Year t) (Mon t) = (y1, m1)"
    by (cases "nextMonth (Year t) (Mon t)")
  have "instant (utcAddDate t 0 1 0) = dayNumber y1 m1 (Day t) * nanosPerDay + int (Nanos t)"
    by (simp add: utcAddDate_def nm instant_setDate)
  also have "\<dots> = instant t + int (daysIn (Year t) (Mon t)) * nanosPerDay"
    by (simp add: dayNumber_nextMonth [OF nm] instant_def algebra_simps)
  finally show ?thesis .
qed

lemma dayNumber_nextYear: "dayNumber y m d + 365 \<le> dayNumber (y + 1) m d"
  by (simp add: dayNumber_def daysSinceEpoch_next)

lemma instant_utcAddDate_year: "instant t + 365 * nanosPerDay \<le> instant (utcAddDate t 1 0 0)"
proof -
  have "instant (utcAddDate t 1 0 0)
      = dayNumber (Year t + 1) (Mon t) (Day t) * nanosPerDay + int (Nanos t)"
    by (simp add: utcAddDate_def instant_setDate)
  with dayNumber_nextYear [of "Year t" "Mon t" "Day t"] show ?thesis
    by (simp add: instant_def nanosPerDay_def)
qed

lemma daysIn_pos: "0 < daysIn y m"
  by (cases m) simp_all

section \<open>Sanitising strings\<close>

text \<open>
  \<^verbatim>\<open>REInvalidChars\<close> is \<^verbatim>\<open>[^\p{L}\p{N}\s.,\-'_!"]\<close> and \<^verbatim>\<open>RERepeatingSpaces\<close> is
  \<^verbatim>\<open>\s+\<close>. In Go's regular expressions \<^verbatim>\<open>\s\<close> is tab, line feed, form feed,
  carriage return and space. The Unicode tables behind \<^verbatim>\<open>\p{L}\<close> and \<^verbatim>\<open>\p{N}\<close>
  are not part of the repository: they are the parameters \<open>isL\<close> and \<open>isN\<close>.
  \<open>IsSpace\<close> is \<^verbatim>\<open>unicode.IsSpace\<close>, which \<^verbatim>\<open>strings.TrimSpace\<close> trims by.
\<close>

definition reSpace :: "rune \<Rightarrow> bool" where
  "reSpace c = (c = 9 \<or> c = 10 \<or> c = 12 \<or> c = 13 \<or> c = 32)"

definition rePunct :: "rune \<Rightarrow> bool" where
  "rePunct c = (c = 46 \<or> c = 44 \<or> c = 45 \<or> c = 39 \<or> c = 95 \<or> c = 33 \<or> c = 34)"

definition invalidChar :: "(rune \<Rightarrow> bool) \<Rightarrow> (rune \<Rightarrow> bool) \<Rightarrow> rune \<Rightarrow> bool" where
  "invalidChar isL isN c = (\<not> (isL c \<or> isN c \<or> reSpace c \<or> rePunct c))"

definition replaceInvalid :: "(rune \<Rightarrow> bool) \<Rightarrow> (rune \<Rightarrow> bool) \<Rightarrow> gostring \<Rightarrow> gostring" where
  "replaceInvalid isL isN s = map (\<lambda>c. if invalidChar isL isN c then 32 else c) s"

text \<open>Every maximal run of \<^verbatim>\<open>\s\<close> becomes one space.\<close>

function collapseSpaces :: "gostring \<Rightarrow> gostring" where
  "collapseSpaces [] = []"
| "collapseSpaces (c # cs) =
     (if reSpace c then 32 # collapseSpaces (dropWhile reSpace cs) else c # collapseSpaces cs)"
  by pat_completeness auto
termination
  by (relation "measure length") (auto simp: less_Suc_eq_le length_dropWhile_le)

definition IsSpace :: "rune \<Rightarrow> bool" where
  "IsSpace c =
     (c = 9 \<or> c = 10 \<or> c = 11 \<or> c = 12 \<or> c = 13 \<or> c = 32 \<or> c = 133 \<or> c = 160
      \<or> c = 5760 \<or> (8192 \<le> c \<and> c \<le> 8202) \<or> c = 8232 \<or> c = 8233 \<or> c = 8239
      \<or> c = 8287 \<or> c = 12288)"

definition TrimSpace :: "gostring \<Rightarrow> gostring" where
  "TrimSpace s = rev (dropWhile IsSpace (rev (dropWhile IsSpace s)))"

definition SanitizeString :: "(rune \<Rightarrow> bool) \<Rightarrow> (rune \<Rightarrow> bool) \<Rightarrow> gostring \<Rightarrow> gostring" where
  "SanitizeString isL isN s = TrimSpace (collapseSpaces (replaceInvalid isL isN s))"

text \<open>The letters and digits of ASCII, to run the sanitiser on concrete strings.\<close>

definition asciiLetter :: "rune \<Rightarrow> bool" where
  "asciiLetter c = ((65 \<le> c \<and> c \<le> 90) \<or> (97 \<le> c \<and> c \<le> 122))"

definition asciiDigit :: "rune \<Rightarrow> bool" where
  "asciiDigit c = (48 \<le> c \<and> c \<le> 57)"



subsection \<open>A sanitised string is a fixed point\<close>

fun tidy :: "gostring \<Rightarrow> bool" where
  "tidy [] = True"
| "tidy [c] = (if reSpace c then c = 32 else True)"
| "tidy (c # d # cs) = ((if reSpace c then c = 32 \<and> \<not> reSpace d else True) \<and> tidy (d # cs))"

lemma replaceInvalid_fix:
  "list_all (\<lambda>c. \<not> invalidChar isL isN c) s \<Longrightarrow> replaceInvalid isL isN s = s"
  by (induction s) (simp_all add: replaceInvalid_def)

lemma invalidChar_space: "\<not> invalidChar isL isN 32"
  by (simp add: invalidChar_def reSpace_def)

lemma replaceInvalid_valid: "list_all (\<lambda>c. \<not> invalidChar isL isN c) (replaceInvalid isL isN s)"
  by (induction s) (simp_all add: replaceInvalid_def invalidChar_space)

lemma list_all_dropWhile: "list_all P xs \<Longrightarrow> list_all P (dropWhile Q xs)"
  by (induction xs) simp_all

lemma collapseSpaces_valid:
  "list_all (\<lambda>c. \<not> invalidChar isL isN c) s \<Longrightarrow>
   list_all (\<lambda>c. \<not> invalidChar isL isN c) (collapseSpaces s)"
  by (induction s rule: collapseSpaces.induct)
    (simp_all add: invalidChar_space list_all_dropWhile)

lemma TrimSpace_valid: "list_all P s \<Longrightarrow> list_all P (TrimSpace s)"
proof -
  assume "list_all P s"
  then have "list_all P (dropWhile IsSpace s)" by (rule list_all_dropWhile)
  then have "list_all P (rev (dropWhile IsSpace s))" by simp
  then have "list_all P (dropWhile IsSpace (rev (dropWhile IsSpace s)))"
    by (rule list_all_dropWhile)
  then show ?thesis by (simp add: TrimSpace_def)
qed

lemma collapseSpaces_head:
  "collapseSpaces s = c # cs \<Longrightarrow> reSpace c \<Longrightarrow> s \<noteq> [] \<and> reSpace (hd s) \<and> c = 32"
  by (cases s) (auto split: if_splits)

lemma dropWhile_head: "dropWhile P xs = y # ys \<Longrightarrow> \<not> P y"
  by (metis dropWhile_eq_Cons_conv)

lemma tidy_collapseSpaces: "tidy (collapseSpaces s)"
proof (induction s rule: collapseSpaces.induct)
  case 1
  show ?case by simp
next
  case (2 c cs)
  show ?case
  proof (cases "reSpace c")
    case True
    show ?thesis
    proof (cases "collapseSpaces (dropWhile reSpace cs)")
      case Nil
      with True show ?thesis by simp
    next
      case (Cons d ds)
      have "\<not> reSpace d"
      proof
        assume "reSpace d"
        from collapseSpaces_head [OF Cons this]
        obtain y ys where "dropWhile reSpace cs = y # ys" "reSpace y"
          by (cases "dropWhile reSpace cs") auto
        then show False by (auto dest: dropWhile_head)
      qed
      with True Cons "2.IH"(1) show ?thesis by simp
    qed
  next
    case False
    with "2.IH"(2) show ?thesis by (cases "collapseSpaces cs") simp_all
  qed
qed

lemma tidy_tl: "tidy (c # cs) \<Longrightarrow> tidy cs"
  by (cases cs) simp_all

lemma collapseSpaces_fix: "tidy s \<Longrightarrow> collapseSpaces s = s"
proof (induction s rule: tidy.induct)
  case 1
  show ?case by simp
next
  case (2 c)
  then show ?case by (simp split: if_splits)
next
  case (3 c d cs)
  then show ?case by (auto split: if_splits)
qed

lemma tidy_dropWhile: "tidy s \<Longrightarrow> tidy (dropWhile P s)"
  by (induction s) (auto dest: tidy_tl)

lemma tidy_append_left: "tidy (xs @ ys) \<Longrightarrow> tidy xs"
proof (induction xs rule: tidy.induct)
  case 1
  show ?case by simp
next
  case (2 c)
  then show ?case by (cases ys) (simp_all split: if_splits)
next
  case (3 c d cs)
  then show ?case by (simp split: if_splits)
qed

lemma trimRight_prefix: "\<exists>ys. xs = rev (dropWhile P (rev xs)) @ ys"
proof -
  have "rev xs = takeWhile P (rev xs) @ dropWhile P (rev xs)" by simp
  then have "xs = rev (takeWhile P (rev xs) @ dropWhile P (rev xs))" by (metis rev_rev_ident)
  then show ?thesis by (metis rev_append)
qed

lemma tidy_TrimSpace: "tidy s \<Longrightarrow> tidy (TrimSpace s)"
proof -
  assume "tidy s"
  then have t: "tidy (dropWhile IsSpace s)" by (rule tidy_dropWhile)
  obtain ys where "dropWhile IsSpace s = TrimSpace s @ ys"
    unfolding TrimSpace_def using trimRight_prefix by blast
  with t show ?thesis by (metis tidy_append_left)
qed

lemma TrimSpace_fix: "TrimSpace (TrimSpace s) = TrimSpace s"
proof -
  define u where "u = dropWhile IsSpace s"
  define v where "v = rev (dropWhile IsSpace (rev u))"
  have v: "TrimSpace s = v" by (simp add: TrimSpace_def u_def v_def)
  obtain ys where u: "u = v @ ys" unfolding v_def using trimRight_prefix by blast
  have "dropWhile IsSpace u = u" by (simp add: u_def)
  then have "u = [] \<or> \<not> IsSpace (hd u)" by (simp add: dropWhile_eq_self_iff)
  with u have "v = [] \<or> \<not> IsSpace (hd v)" by (cases v) auto
  then have "dropWhile IsSpace v = v" by (simp add: dropWhile_eq_self_iff)
  then have "TrimSpace v = rev (dropWhile IsSpace (rev v))" by (simp add: TrimSpace_def)
  also have "\<dots> = v" by (simp add: v_def)
  finally show ?thesis by (simp add: v)
qed

lemma SanitizeString_idem:
  "SanitizeString isL isN (SanitizeString isL isN s) = SanitizeString isL isN s"
proof -
  let ?t = "SanitizeString isL isN s"
  have "list_all (\<lambda>c. \<not> invalidChar isL isN c) ?t"
    unfolding SanitizeString_def
    by (intro TrimSpace_valid collapseSpaces_valid replaceInvalid_valid)
  then have 1: "replaceInvalid isL isN ?t = ?t" by (rule replaceInvalid_fix)
  have "tidy ?t" unfolding SanitizeString_def by (intro tidy_TrimSpace tidy_collapseSpaces)
  then have 2: "collapseSpaces ?t = ?t" by (rule collapseSpaces_fix)
  have 3: "TrimSpace ?t = ?t" unfolding SanitizeString_def by (rule TrimSpace_fix)
  show ?thesis
    by (subst (1) SanitizeString_def) (simp only: 1 2 3)
qed


section \<open>Expenses and recurring rules\<close>

text \<open>
  The structs of \<^verbatim>\<open>storage.go\<close>. An amount is a \<^verbatim>\<open>float64\<close> that the storage layer
  only copies; it is modelled by the real number it denotes. \<open>Occurrences\<close> is a Go
  \<^verbatim>\<open>int\<close>; the only arithmetic on it is a decrement of a positive value.
\<close>

record Expense =
  UserID :: gostring
  Flow :: gostring
  ID :: gostring
  RecurringID :: gostring
  Name :: gostring
  Tags :: "gostring list"
  Category :: gostring
  Amount :: real
  Currency :: gostring
  Source :: gostring
  Card :: gostring
  Date :: Time

record RecurringExpense =
  rUserID :: gostring
  rFlow :: gostring
  rID :: gostring
  rName :: gostring
  rAmount :: real
  rCurrency :: gostring
  rTags :: "gostring list"
  rCategory :: gostring
  StartDate :: Time
  Interval :: gostring
  Occurrences :: int

section \<open>The generator\<close>

text \<open>
  \<^verbatim>\<open>time.Time.AddDate\<close> belongs to the Go library, not to the repository. It is the
  parameter \<open>AddDate\<close> of the definitions below: \<open>AddDate t years months days\<close> is
  \<^verbatim>\<open>t.AddDate(years, months, days)\<close> for a \<open>t\<close> in the \<^verbatim>\<open>Location\<close> of the rule's
  start date, which every date that \<^verbatim>\<open>AddDate\<close> returns shares.

  The \<^verbatim>\<open>switch recExp.Interval\<close> that both loops of
  \<^verbatim>\<open>generateExpensesFromRecurring\<close> contain; \<open>None\<close> is its \<^verbatim>\<open>default\<close> branch.
\<close>

definition advance :: "(Time \<Rightarrow> int \<Rightarrow> int \<Rightarrow> int \<Rightarrow> Time) \<Rightarrow> gostring \<Rightarrow> Time \<Rightarrow> Time option" where
  "advance AddDate iv t =
     (if iv = str ''daily'' then Some (AddDate t 0 0 1)
      else if iv = str ''weekly'' then Some (AddDate t 0 0 7)
      else if iv = str ''monthly'' then Some (AddDate t 0 1 0)
      else if iv = str ''yearly'' then Some (AddDate t 1 0 0)
      else None)"

text \<open>
  The first loop, run when \<^verbatim>\<open>fromToday\<close> is set: it moves \<^verbatim>\<open>currentDate\<close> forward
  while it is before \<^verbatim>\<open>today\<close> and occurrences are left. It ends with a date and a
  count, or in the \<^verbatim>\<open>default\<close> branch, which returns from the function. With
  \<open>Occurrences = 0\<close> the loop runs until a date is not before \<^verbatim>\<open>today\<close>; a loop that
  never ends has the value \<open>None\<close>.
\<close>

datatype firstLoop = Reached Time int | InvalidInterval

partial_function (option) fastForward ::
    "(Time \<Rightarrow> int \<Rightarrow> int \<Rightarrow> int \<Rightarrow> Time) \<Rightarrow> gostring \<Rightarrow> Time \<Rightarrow> int \<Rightarrow> Time \<Rightarrow> int
      \<Rightarrow> firstLoop option" where
  "fastForward AddDate iv today occ currentDate occurrencesToGenerate =
     (if Before currentDate today \<and> (occ = 0 \<or> occurrencesToGenerate > 0)
      then (case advance AddDate iv currentDate of
              None \<Rightarrow> Some InvalidInterval
            | Some next \<Rightarrow>
                fastForward AddDate iv today occ next
                  (if occ > 0 then occurrencesToGenerate - 1 else occurrencesToGenerate))
      else Some (Reached currentDate occurrencesToGenerate))"

text \<open>
  The second loop, \<^verbatim>\<open>for range limit\<close>: \<open>n\<close> rounds are left, \<open>k\<close> identifiers have
  been drawn. \<open>uuids k\<close> is the string the \<open>k\<close>-th call of \<^verbatim>\<open>uuid.New()\<close> returns.
\<close>

fun emitLoop :: "(Time \<Rightarrow> int \<Rightarrow> int \<Rightarrow> int \<Rightarrow> Time) \<Rightarrow> (nat \<Rightarrow> gostring) \<Rightarrow> gostring
    \<Rightarrow> RecurringExpense \<Rightarrow> nat \<Rightarrow> nat \<Rightarrow> Time \<Rightarrow> Expense list" where
  "emitLoop AddDate uuids userID recExp 0 k currentDate = []"
| "emitLoop AddDate uuids userID recExp (Suc n) k currentDate =
     \<lparr>UserID = userID, Flow = [], ID = uuids k, RecurringID = rID recExp,
      Name = rName recExp, Tags = rTags recExp, Category = rCategory recExp,
      Amount = rAmount recExp, Currency = rCurrency recExp, Source = [], Card = [],
      Date = currentDate\<rparr>
     # (case advance AddDate (Interval recExp) currentDate of
          None \<Rightarrow> []
        | Some next \<Rightarrow> emitLoop AddDate uuids userID recExp n (Suc k) next)"

text \<open>
  \<^verbatim>\<open>generateExpensesFromRecurring\<close>; \<open>today\<close> is what \<^verbatim>\<open>time.Now()\<close> returns. A
  \<^verbatim>\<open>limit\<close> below zero gives no round of the second loop. The result is \<open>Some\<close> of the
  slice the function returns, and \<open>None\<close> when its first loop never ends.
\<close>

definition generateExpensesFromRecurring ::
    "(Time \<Rightarrow> int \<Rightarrow> int \<Rightarrow> int \<Rightarrow> Time) \<Rightarrow> (nat \<Rightarrow> gostring) \<Rightarrow> Time \<Rightarrow> gostring
      \<Rightarrow> RecurringExpense \<Rightarrow> bool \<Rightarrow> Expense list option" where
  "generateExpensesFromRecurring AddDate uuids today userID recExp fromToday =
     (if fromToday
      then (case fastForward AddDate (Interval recExp) today (Occurrences recExp)
                   (StartDate recExp) (Occurrences recExp) of
              None \<Rightarrow> None
            | Some InvalidInterval \<Rightarrow> Some []
            | Some (Reached currentDate limit) \<Rightarrow>
                Some (emitLoop AddDate uuids userID recExp (nat limit) 0 currentDate))
      else Some (emitLoop AddDate uuids userID recExp (nat (Occurrences recExp)) 0
                   (StartDate recExp)))"

section \<open>Validation\<close>

text \<open>
  The functions of the repository return Go errors built from message strings. The model
  keeps the kind of the error: a rejected input, a row that was not found, a violated
  uniqueness constraint.
\<close>

datatype error = ValidationError | NotFoundError | ConflictError


text \<open>The lookup in the map \<^verbatim>\<open>validIntervals\<close>; a key that is absent reads as false.\<close>

definition validIntervals :: "gostring \<Rightarrow> bool" where
  "validIntervals iv =
     (iv = str ''daily'' \<or> iv = str ''weekly'' \<or> iv = str ''monthly'' \<or> iv = str ''yearly'')"

text \<open>The loop over \<^verbatim>\<open>e.Tags\<close>, run when there is at least one tag.\<close>

definition cleanTags :: "(rune \<Rightarrow> bool) \<Rightarrow> (rune \<Rightarrow> bool) \<Rightarrow> gostring list \<Rightarrow> gostring list" where
  "cleanTags isL isN tags =
     (if length tags > 0
      then filter (\<lambda>sanitizedTag. sanitizedTag \<noteq> []) (map (SanitizeString isL isN) tags)
      else tags)"

text \<open>
  \<^verbatim>\<open>(e *RecurringExpense) Validate()\<close>. The method writes the sanitised name and tags
  into the struct and returns an error or nil; the model returns the error, or the
  struct as the method leaves it. It reads and writes nothing but the struct.
\<close>

definition Validate ::
    "(rune \<Rightarrow> bool) \<Rightarrow> (rune \<Rightarrow> bool) \<Rightarrow> RecurringExpense \<Rightarrow> error + RecurringExpense" where
  "Validate isL isN e =
     (let e1 = e\<lparr>rName := SanitizeString isL isN (rName e)\<rparr> in
      if rName e1 = [] then Inl ValidationError
      else if rCategory e1 = [] then Inl ValidationError
      else
        let e2 = e1\<lparr>rTags := cleanTags isL isN (rTags e1)\<rparr> in
        if Occurrences e2 < 2 then Inl ValidationError
        else if IsZero (StartDate e2) then Inl ValidationError
        else if \<not> validIntervals (Interval e2) then Inl ValidationError
        else Inr e2)"

text \<open>A valid rule is one that \<open>Validate\<close> accepts.\<close>

definition passesValidation :: "(rune \<Rightarrow> bool) \<Rightarrow> (rune \<Rightarrow> bool) \<Rightarrow> RecurringExpense \<Rightarrow> bool" where
  "passesValidation isL isN e = (\<not> isl (Validate isL isN e))"

subsection \<open>A rule to run the definitions on\<close>

definition jan1 :: Time where
  "jan1 = \<lparr>Year = 2026, Mon = January, Day = 1, Nanos = 0\<rparr>"

definition feb1 :: Time where
  "feb1 = \<lparr>Year = 2026, Mon = February, Day = 1, Nanos = 0\<rparr>"

definition mar1 :: Time where
  "mar1 = \<lparr>Year = 2026, Mon = March, Day = 1, Nanos = 0\<rparr>"

definition rentRule :: RecurringExpense where
  "rentRule =
     \<lparr>rUserID = [], rFlow = [], rID = str ''r1'', rName = str ''Rent'', rAmount = 100,
      rCurrency = str ''usd'', rTags = [], rCategory = str ''Rent'',
      StartDate = jan1, Interval = str ''monthly'', Occurrences = 3\<rparr>"

definition midJanuary :: Time where
  "midJanuary = \<lparr>Year = 2026, Mon = January, Day = 15, Nanos = 0\<rparr>"

definition someIDs :: "nat \<Rightarrow> gostring" where
  "someIDs k = str ''e'' @ replicate k 105"

definition mar29 :: Time where
  "mar29 = \<lparr>Year = 2026, Mon = March, Day = 29, Nanos = 0\<rparr>"

definition mar30 :: Time where
  "mar30 = \<lparr>Year = 2026, Mon = March, Day = 30, Nanos = 0\<rparr>"

definition apr29 :: Time where
  "apr29 = \<lparr>Year = 2026, Mon = April, Day = 29, Nanos = 0\<rparr>"

text \<open>
  A rule that starts on 2026-02-28 at 19:00 in a \<^verbatim>\<open>Location\<close> five hours west of UTC,
  which is 2026-03-01 at 00:00 in UTC.
\<close>

definition eveningRule :: RecurringExpense where
  "eveningRule = rentRule\<lparr>StartDate := mar1\<rparr>"



section \<open>What the generator is meant to produce\<close>

text \<open>
  The interval step in the words of the specification (daily: one day, weekly: seven
  days, monthly: one calendar month, yearly: one calendar year, each added by
  \<^verbatim>\<open>AddDate\<close>), the date after \<open>k\<close> steps, the instance of a rule at a date, and the
  number of dates strictly before \<open>today\<close> among the first \<open>n\<close> dates of the sequence.
\<close>

definition intervalStep :: "(Time \<Rightarrow> int \<Rightarrow> int \<Rightarrow> int \<Rightarrow> Time) \<Rightarrow> gostring \<Rightarrow> Time \<Rightarrow> Time" where
  "intervalStep AddDate iv t =
     (if iv = str ''daily'' then AddDate t 0 0 1
      else if iv = str ''weekly'' then AddDate t 0 0 7
      else if iv = str ''monthly'' then AddDate t 0 1 0
      else AddDate t 1 0 0)"

primrec nthDate :: "(Time \<Rightarrow> int \<Rightarrow> int \<Rightarrow> int \<Rightarrow> Time) \<Rightarrow> gostring \<Rightarrow> Time \<Rightarrow> nat \<Rightarrow> Time" where
  "nthDate AddDate iv t 0 = t"
| "nthDate AddDate iv t (Suc k) = nthDate AddDate iv (intervalStep AddDate iv t) k"

definition instanceOf :: "gostring \<Rightarrow> RecurringExpense \<Rightarrow> gostring \<Rightarrow> Time \<Rightarrow> Expense" where
  "instanceOf userID recExp newID date =
     \<lparr>UserID = userID, Flow = [], ID = newID, RecurringID = rID recExp,
      Name = rName recExp, Tags = rTags recExp, Category = rCategory recExp,
      Amount = rAmount recExp, Currency = rCurrency recExp, Source = [], Card = [],
      Date = date\<rparr>"

definition skipped ::
    "(Time \<Rightarrow> int \<Rightarrow> int \<Rightarrow> int \<Rightarrow> Time) \<Rightarrow> gostring \<Rightarrow> Time \<Rightarrow> Time \<Rightarrow> nat \<Rightarrow> nat" where
  "skipped AddDate iv start today n =
     length (takeWhile (\<lambda>k. Before (nthDate AddDate iv start k) today) [0..<n])"

definition skippedOf ::
    "(Time \<Rightarrow> int \<Rightarrow> int \<Rightarrow> int \<Rightarrow> Time) \<Rightarrow> Time \<Rightarrow> RecurringExpense \<Rightarrow> nat" where
  "skippedOf AddDate today r =
     skipped AddDate (Interval r) (StartDate r) today (nat (Occurrences r))"

section \<open>Properties of validation and of the generator\<close>

lemmas eval_simps = SanitizeString_def TrimSpace_def replaceInvalid_def str_def invalidChar_def
  reSpace_def rePunct_def IsSpace_def asciiLetter_def asciiDigit_def

lemma str_empty: "str s = [] \<longleftrightarrow> s = []"
  by (simp add: str_def)

lemma SanitizeString_Rent: "SanitizeString asciiLetter asciiDigit (str ''Rent'') = str ''Rent''"
  by (simp add: eval_simps)

lemma rentRule_started: "\<not> IsZero jan1"
  by (simp add: jan1_def IsZero_def instant_def dayNumber_def daysSinceEpoch_def
      nanosPerDay_def isLeap_def afterFebruary_def)

lemma rentRule_fields:
  "rName rentRule = str ''Rent''" "rCategory rentRule = str ''Rent''" "rTags rentRule = []"
  "Occurrences rentRule = 3" "Interval rentRule = str ''monthly''" "StartDate rentRule = jan1"
  "rAmount rentRule = 100" "rID rentRule = str ''r1''" "rCurrency rentRule = str ''usd''"
  by (simp_all add: rentRule_def)

lemma Validate_rentRule: "Validate asciiLetter asciiDigit rentRule = Inr rentRule"
proof -
  have "str ''Rent'' \<noteq> []" by (simp add: str_def)
  moreover have "rentRule\<lparr>rName := str ''Rent'', rTags := []\<rparr> = rentRule"
    by (simp add: rentRule_def)
  ultimately show ?thesis
    by (simp add: Validate_def Let_def rentRule_fields SanitizeString_Rent cleanTags_def
        rentRule_started validIntervals_def)
qed

lemma Validate_defects:
  "Validate isL isN r = Inl ValidationError \<longleftrightarrow>
     (SanitizeString isL isN (rName r) = [] \<or> rCategory r = [] \<or> Occurrences r < 2
      \<or> IsZero (StartDate r) \<or> \<not> validIntervals (Interval r))"
  by (simp add: Validate_def Let_def)

lemma Validate_Inr:
  "Validate isL isN r = Inr r' \<longleftrightarrow>
     (\<not> (SanitizeString isL isN (rName r) = [] \<or> rCategory r = [] \<or> Occurrences r < 2
      \<or> IsZero (StartDate r) \<or> \<not> validIntervals (Interval r))
      \<and> r' = r\<lparr>rName := SanitizeString isL isN (rName r), rTags := cleanTags isL isN (rTags r)\<rparr>)"
  by (auto simp add: Validate_def Let_def)


lemma advance_valid:
  "validIntervals iv \<Longrightarrow> advance AddDate iv t = Some (intervalStep AddDate iv t)"
  by (auto simp: validIntervals_def advance_def intervalStep_def)

lemma nthDate_Suc:
  "nthDate AddDate iv t (Suc k) = intervalStep AddDate iv (nthDate AddDate iv t k)"
  by (induction k arbitrary: t) simp_all

lemma nthDate_add:
  "nthDate AddDate iv t (j + k) = nthDate AddDate iv (nthDate AddDate iv t j) k"
  by (induction j arbitrary: t) simp_all

lemma emitLoop_valid:
  "validIntervals (Interval r) \<Longrightarrow>
   emitLoop AddDate uuids u r n k t =
     map (\<lambda>i. instanceOf u r (uuids (k + i)) (nthDate AddDate (Interval r) t i)) [0..<n]"
proof (induction n arbitrary: k t)
  case 0
  show ?case by simp
next
  case (Suc n)
  have "[0..<Suc n] = 0 # map Suc [0..<n]" by (simp add: upt_conv_Cons map_Suc_upt del: upt_Suc)
  then show ?case
    using Suc by (simp add: advance_valid instanceOf_def comp_def del: upt_Suc)
qed

lemma takeWhile_upt_Suc:
  "takeWhile P [0..<Suc n] = (if P 0 then 0 # map Suc (takeWhile (\<lambda>k. P (Suc k)) [0..<n]) else [])"
proof -
  have "[0..<Suc n] = 0 # map Suc [0..<n]" by (simp add: upt_conv_Cons map_Suc_upt del: upt_Suc)
  then show ?thesis by (simp add: takeWhile_map comp_def del: upt_Suc)
qed

lemma skipped_Suc:
  "skipped AddDate iv t today (Suc n) =
     (if Before t today then Suc (skipped AddDate iv (intervalStep AddDate iv t) today n) else 0)"
  unfolding skipped_def takeWhile_upt_Suc by simp

lemma fastForward_valid:
  "validIntervals iv \<Longrightarrow> 0 < occ \<Longrightarrow>
   fastForward AddDate iv today occ t (int n) =
     Some (Reached (nthDate AddDate iv t (skipped AddDate iv t today n))
             (int n - int (skipped AddDate iv t today n)))"
proof (induction n arbitrary: t)
  case 0
  then show ?case by (subst fastForward.simps) (simp add: skipped_def)
next
  case (Suc n)
  show ?case
  proof (cases "Before t today")
    case True
    have "fastForward AddDate iv today occ t (int (Suc n)) =
        fastForward AddDate iv today occ (intervalStep AddDate iv t) (int n)"
      using True Suc.prems
      by (subst fastForward.simps) (simp add: advance_valid)
    with Suc True show ?thesis by (simp add: skipped_Suc)
  next
    case False
    then show ?thesis
      by (subst fastForward.simps) (simp add: skipped_Suc)
  qed
qed

lemma skipped_le: "skipped AddDate iv t today n \<le> n"
  unfolding skipped_def by (metis length_takeWhile_le length_upt diff_zero)

lemma skipped_before:
  "k < skipped AddDate iv t today n \<Longrightarrow> Before (nthDate AddDate iv t k) today"
proof -
  assume k: "k < skipped AddDate iv t today n"
  let ?P = "\<lambda>k. Before (nthDate AddDate iv t k) today"
  have "takeWhile ?P [0..<n] ! k \<in> set (takeWhile ?P [0..<n])"
    using k by (simp add: skipped_def)
  then have "?P (takeWhile ?P [0..<n] ! k)" by (rule set_takeWhileD [THEN conjunct2])
  moreover have "takeWhile ?P [0..<n] ! k = [0..<n] ! k"
    using k by (simp add: skipped_def takeWhile_nth)
  moreover have "k < n" using k skipped_le [of AddDate iv t today n] by simp
  ultimately show ?thesis by simp
qed

lemma skipped_stop:
  "skipped AddDate iv t today n < n \<Longrightarrow>
   \<not> Before (nthDate AddDate iv t (skipped AddDate iv t today n)) today"
proof -
  assume l: "skipped AddDate iv t today n < n"
  let ?P = "\<lambda>k. Before (nthDate AddDate iv t k) today"
  from l have "length (takeWhile ?P [0..<n]) < length [0..<n]" by (simp add: skipped_def)
  then have "\<not> ?P ([0..<n] ! length (takeWhile ?P [0..<n]))" by (rule nth_length_takeWhile)
  with l show ?thesis by (simp add: skipped_def)
qed

lemma passesValidation_iff:
  "passesValidation isL isN r \<longleftrightarrow>
     \<not> (SanitizeString isL isN (rName r) = [] \<or> rCategory r = [] \<or> Occurrences r < 2
      \<or> IsZero (StartDate r) \<or> \<not> validIntervals (Interval r))"
  by (simp add: passesValidation_def Validate_def Let_def)

lemma generate_full:
  "validIntervals (Interval r) \<Longrightarrow>
   generateExpensesFromRecurring AddDate uuids today u r False =
     Some (map (\<lambda>i. instanceOf u r (uuids i) (nthDate AddDate (Interval r) (StartDate r) i))
       [0..<nat (Occurrences r)])"
  by (simp add: generateExpensesFromRecurring_def emitLoop_valid)

lemma generate_future:
  assumes v: "validIntervals (Interval r)" and o: "0 < Occurrences r"
  shows "generateExpensesFromRecurring AddDate uuids today u r True =
     Some (map (\<lambda>i. instanceOf u r (uuids i)
            (nthDate AddDate (Interval r) (StartDate r) (skippedOf AddDate today r + i)))
       [0..<nat (Occurrences r) - skippedOf AddDate today r])"
proof -
  define n where "n = nat (Occurrences r)"
  have occ: "Occurrences r = int n" using o by (simp add: n_def)
  have ff: "fastForward AddDate (Interval r) today (Occurrences r) (StartDate r) (Occurrences r) =
      Some (Reached (nthDate AddDate (Interval r) (StartDate r) (skippedOf AddDate today r))
            (int n - int (skippedOf AddDate today r)))"
    using fastForward_valid [OF v o, of AddDate today "StartDate r" n]
    by (simp add: occ skippedOf_def)
  have "nat (int n - int (skippedOf AddDate today r)) = n - skippedOf AddDate today r" by simp
  then show ?thesis
    unfolding generateExpensesFromRecurring_def
    by (simp add: ff emitLoop_valid [OF v] nthDate_add n_def)
qed

text \<open>
  C3. For every valid rule and in every \<^verbatim>\<open>Location\<close> (for every \<open>AddDate\<close>),
  generation with \<^verbatim>\<open>fromToday\<close> set returns: it walks the dates of the rule from its
  start date and takes one occurrence off the budget for every date strictly before
  today, \<open>skippedOf AddDate today r\<close> of them. It then emits the rest of the budget, the
  instances at the dates from the first one that is not before today. When the whole
  budget is used up before such a date is reached, nothing is emitted.
\<close>

theorem generate_future_only:
  assumes "passesValidation isL isN r"
  shows "generateExpensesFromRecurring AddDate uuids today u r True =
           Some (map (\<lambda>i. instanceOf u r (uuids i)
                  (nthDate AddDate (Interval r) (StartDate r) (skippedOf AddDate today r + i)))
             [0..<nat (Occurrences r) - skippedOf AddDate today r])
         \<and> skippedOf AddDate today r \<le> nat (Occurrences r)
         \<and> (\<forall>k. k < skippedOf AddDate today r \<longrightarrow>
                Before (nthDate AddDate (Interval r) (StartDate r) k) today)
         \<and> (skippedOf AddDate today r < nat (Occurrences r) \<longrightarrow>
                \<not> Before (nthDate AddDate (Interval r) (StartDate r)
                           (skippedOf AddDate today r)) today)
         \<and> (skippedOf AddDate today r = nat (Occurrences r) \<longrightarrow>
                generateExpensesFromRecurring AddDate uuids today u r True = Some [])"
proof -
  from assms have v: "validIntervals (Interval r)" and o: "0 < Occurrences r"
    by (simp_all add: passesValidation_iff)
  note g = generate_future [OF v o, of AddDate uuids today u]
  have "\<forall>k. k < skippedOf AddDate today r \<longrightarrow>
      Before (nthDate AddDate (Interval r) (StartDate r) k) today"
    by (simp add: skippedOf_def skipped_before)
  moreover have "skippedOf AddDate today r < nat (Occurrences r) \<longrightarrow>
      \<not> Before (nthDate AddDate (Interval r) (StartDate r) (skippedOf AddDate today r)) today"
    unfolding skippedOf_def by (simp add: skipped_stop)
  moreover have "skippedOf AddDate today r \<le> nat (Occurrences r)"
    by (simp add: skippedOf_def skipped_le)
  ultimately show ?thesis by (simp add: g)
qed

lemmas time_eval = Before_def instant_def dayNumber_def daysSinceEpoch_def nanosPerDay_def
  isLeap_def afterFebruary_def utcAddDate_def setDate_def normDay.simps

lemma monthly_steps:
  "intervalStep utcAddDate (str ''monthly'') jan1 = feb1"
  "intervalStep utcAddDate (str ''monthly'') feb1 = mar1"
  by (simp_all add: jan1_def feb1_def mar1_def intervalStep_def str_def utcAddDate_def
      setDate_def normDay.simps isLeap_def)

lemma january_dates:
  "Before jan1 midJanuary" "\<not> Before feb1 midJanuary"
  by (simp_all add: jan1_def feb1_def midJanuary_def time_eval)

lemma rentRule_skipped: "skippedOf utcAddDate midJanuary rentRule = 1"
  by (simp add: skippedOf_def skipped_def rentRule_fields numeral_3_eq_3 upt_rec
      monthly_steps january_dates)

lemma eastern_steps:
  "intervalStep (zoneAddDate (- 18000)) (str ''monthly'') mar1 = mar29"
  "intervalStep (zoneAddDate (- 18000)) (str ''monthly'') mar29 = apr29"
  by (simp_all add: mar1_def mar29_def apr29_def intervalStep_def str_def zoneAddDate_def
      shiftClock_def previousDay_def nextDay_def Let_def nanosPerDay_def
      utcAddDate_def setDate_def normDay.simps isLeap_def)

lemma march_dates:
  "Before mar1 mar30" "Before mar29 mar30" "\<not> Before apr29 mar30"
  by (simp_all add: mar1_def mar29_def mar30_def apr29_def time_eval)

lemma eveningRule_fields:
  "rName eveningRule = str ''Rent''" "rCategory eveningRule = str ''Rent''"
  "rTags eveningRule = []" "Occurrences eveningRule = 3"
  "Interval eveningRule = str ''monthly''" "StartDate eveningRule = mar1"
  by (simp_all add: eveningRule_def rentRule_def)

lemma eveningRule_skipped: "skippedOf (zoneAddDate (- 18000)) mar30 eveningRule = 2"
  by (simp add: skippedOf_def skipped_def eveningRule_fields numeral_3_eq_3 upt_rec
      eastern_steps march_dates)

lemma eveningRule_valid: "passesValidation asciiLetter asciiDigit eveningRule"
proof -
  have "\<not> IsZero mar1"
    by (simp add: mar1_def IsZero_def instant_def dayNumber_def daysSinceEpoch_def
      nanosPerDay_def isLeap_def afterFebruary_def)
  then show ?thesis
    by (simp add: passesValidation_iff eveningRule_fields SanitizeString_Rent str_empty
        validIntervals_def)
qed

theorem generate_future_only_witness:
  "passesValidation asciiLetter asciiDigit rentRule
   \<and> map_option (map Date)
        (generateExpensesFromRecurring utcAddDate someIDs midJanuary (str ''alice'') rentRule True)
       = Some [feb1, mar1]
   \<and> passesValidation asciiLetter asciiDigit eveningRule
   \<and> map_option (map Date)
        (generateExpensesFromRecurring (zoneAddDate (- 18000)) someIDs mar30 (str ''alice'')
           eveningRule True)
       = Some [apr29]"
proof -
  from generate_future_only [OF eveningRule_valid,
      of "zoneAddDate (- 18000)" someIDs mar30 "str ''alice''"]
  have "generateExpensesFromRecurring (zoneAddDate (- 18000)) someIDs mar30 (str ''alice'')
        eveningRule True =
      Some (map (\<lambda>i. instanceOf (str ''alice'') eveningRule (someIDs i)
             (nthDate (zoneAddDate (- 18000)) (Interval eveningRule) (StartDate eveningRule)
                (skippedOf (zoneAddDate (- 18000)) mar30 eveningRule + i)))
        [0..<nat (Occurrences eveningRule) - skippedOf (zoneAddDate (- 18000)) mar30 eveningRule])"
    by simp
  then have z: "map_option (map Date)
        (generateExpensesFromRecurring (zoneAddDate (- 18000)) someIDs mar30 (str ''alice'')
           eveningRule True)
       = Some [apr29]"
    by (simp add: eveningRule_skipped eveningRule_fields eastern_steps instanceOf_def upt_rec
         numeral_2_eq_2)
  have p: "passesValidation asciiLetter asciiDigit rentRule"
    by (simp add: passesValidation_def Validate_rentRule)
  from generate_future_only [OF p, of utcAddDate someIDs midJanuary "str ''alice''"]
  have "generateExpensesFromRecurring utcAddDate someIDs midJanuary (str ''alice'') rentRule True =
      Some (map (\<lambda>i. instanceOf (str ''alice'') rentRule (someIDs i)
             (nthDate utcAddDate (Interval rentRule) (StartDate rentRule)
                (skippedOf utcAddDate midJanuary rentRule + i)))
        [0..<nat (Occurrences rentRule) - skippedOf utcAddDate midJanuary rentRule])"
    by simp
  then show ?thesis
    by (simp add: p z eveningRule_valid rentRule_skipped rentRule_fields monthly_steps
        instanceOf_def upt_rec)
qed

text \<open>
  C9. A rule whose \<open>Occurrences\<close> is 0 yields no instance when generated in full
  (\<^verbatim>\<open>fromToday\<close> false): the loop \<^verbatim>\<open>for range limit\<close> has no round.
\<close>

theorem generate_zero_occurrences:
  "Occurrences r = 0 \<Longrightarrow>
   generateExpensesFromRecurring AddDate uuids today u r False = Some []"
  by (simp add: generateExpensesFromRecurring_def)

theorem generate_zero_occurrences_witness:
  "Occurrences (rentRule\<lparr>Occurrences := 0\<rparr>) = 0
   \<and> generateExpensesFromRecurring utcAddDate someIDs midJanuary (str ''alice'')
        (rentRule\<lparr>Occurrences := 0\<rparr>) False = Some []"
  using generate_zero_occurrences
    [of "rentRule\<lparr>Occurrences := 0\<rparr>" utcAddDate someIDs midJanuary "str ''alice''"]
  by simp




text \<open>
  C10. \<open>SanitizeString\<close> is idempotent, so a name that is already sanitised comes out
  of the sanitisation step of \<open>Validate\<close> as it went in.
\<close>

theorem SanitizeString_idempotent:
  "SanitizeString isL isN (SanitizeString isL isN s) = SanitizeString isL isN s
   \<and> (\<forall>r'. Validate isL isN (r\<lparr>rName := SanitizeString isL isN s\<rparr>) = Inr r' \<longrightarrow>
          rName r' = SanitizeString isL isN s)"
  by (auto simp add: Validate_Inr SanitizeString_idem)

theorem SanitizeString_idempotent_witness:
  "SanitizeString asciiLetter asciiDigit (str ''  Rent (flat)  #2 '') = str ''Rent flat 2''
   \<and> SanitizeString asciiLetter asciiDigit (str ''Rent flat 2'') = str ''Rent flat 2''
   \<and> Validate asciiLetter asciiDigit
        (rentRule\<lparr>rName := SanitizeString asciiLetter asciiDigit (str ''  Rent (flat)  #2 '')\<rparr>)
       = Inr (rentRule\<lparr>rName := str ''Rent flat 2''\<rparr>)"
proof -
  have s: "SanitizeString asciiLetter asciiDigit (str ''  Rent (flat)  #2 '') = str ''Rent flat 2''"
    by (simp add: eval_simps)
  have n: "str ''Rent flat 2'' \<noteq> []" by (simp add: str_def)
  from SanitizeString_idempotent [of asciiLetter asciiDigit "str ''  Rent (flat)  #2 ''" rentRule]
  have i: "SanitizeString asciiLetter asciiDigit (str ''Rent flat 2'') = str ''Rent flat 2''"
    by (simp add: s)
  have "Validate asciiLetter asciiDigit (rentRule\<lparr>rName := str ''Rent flat 2''\<rparr>)
      = Inr (rentRule\<lparr>rName := str ''Rent flat 2''\<rparr>)"
    using n by (simp add: Validate_Inr i rentRule_fields cleanTags_def rentRule_started
        validIntervals_def str_empty)
  with s i show ?thesis by simp
qed

end
